theory Spec2Isabelle
  imports Complex_Main "HOL-Library.AList" "HOL-Library.FSet"
begin

section \<open>Data model\<close>

text \<open>
  Instance and request identifiers are Python strings.  A Python \<open>dict\<close> keeps its keys in
  insertion order, so every dictionary of the source is an association list: \<open>map_of\<close> reads
  a key, \<open>AList.update\<close> is \<^verbatim>\<open>d[k] = v\<close> (in place for an old key, appended for a new one),
  \<open>AList.delete\<close> is \<^verbatim>\<open>del d[k]\<close> / \<^verbatim>\<open>d.pop(k, None)\<close> and \<open>length\<close> is \<^verbatim>\<open>len(d)\<close>.  A Python
  \<open>set\<close> is a finite set (\<open>fset\<close>): \<open>finsert\<close> is \<^verbatim>\<open>add\<close>, \<open>s |-| {|x|}\<close> is \<^verbatim>\<open>discard\<close>, \<open>fcard\<close> is
  \<^verbatim>\<open>len\<close>.  Python floats are idealised as reals, Python integers are \<open>int\<close>.
\<close>

type_synonym instance_id = string
type_synonym request_id = string

text \<open>The values that \<^verbatim>\<open>BrowserInstance.status\<close> takes in \<^verbatim>\<open>browser_manager.py\<close>:
  \<^verbatim>\<open>'initializing'\<close>, \<^verbatim>\<open>'ready'\<close>, \<^verbatim>\<open>'ready_fallback'\<close> and \<^verbatim>\<open>'failed'\<close>.\<close>

datatype instance_status = Initializing | Ready | ReadyFallback | Failed

record browser_instance =
  status :: instance_status
  request_count :: int

type_synonym registry = "(instance_id \<times> browser_instance) list"

text \<open>One entry of \<^verbatim>\<open>InstanceCoordinator.instance_metrics\<close>; the two timestamps of the source
  entry are written once and read by no operation modelled here, and are left out.\<close>

record instance_metrics_entry =
  requests_handled :: int
  m_total_response_time :: real
  average_response_time :: real
  errors :: int
  m_status :: string

record coord_request =
  cr_instance_id :: instance_id
  cr_start_time :: real

text \<open>The state of \<^verbatim>\<open>InstanceCoordinator\<close>.  Field \<open>instances\<close> is
  \<^verbatim>\<open>self.browser_manager.instances\<close>; its key order is the order of creation.\<close>

record coordinator =
  instances :: registry
  min_instances :: int
  max_instances :: int
  initial_count :: int
  active_requests :: "(request_id \<times> coord_request) list"
  healthy_instances :: "instance_id fset"
  unhealthy_instances :: "instance_id fset"
  instance_metrics :: "(instance_id \<times> instance_metrics_entry) list"

section \<open>Browser instance and browser manager\<close>

text \<open>
  \<^verbatim>\<open>BrowserInstance.initialize\<close> launches a browser and calls \<^verbatim>\<open>_navigate_and_setup\<close>; what
  happens there is outside the program and is a parameter: the set-up went through, it ended
  in \<^verbatim>\<open>_setup_fallback_mode\<close> (which writes \<^verbatim>\<open>'ready_fallback'\<close> and returns true), or it failed
  (a false result or an exception).  After a true result \<^verbatim>\<open>initialize\<close> assigns
  \<^verbatim>\<open>self.status = 'ready'\<close>, also over the \<^verbatim>\<open>'ready_fallback'\<close> just written.
\<close>

datatype setup_result = SetupOk | SetupFallback | SetupFailed

definition setup_fallback_mode :: "browser_instance \<Rightarrow> bool \<times> browser_instance" where
  "setup_fallback_mode inst = (True, inst\<lparr>status := ReadyFallback\<rparr>)"

definition navigate_and_setup :: "setup_result \<Rightarrow> browser_instance \<Rightarrow> bool \<times> browser_instance" where
  "navigate_and_setup r inst =
     (case r of
        SetupOk \<Rightarrow> (True, inst)
      | SetupFallback \<Rightarrow> setup_fallback_mode inst
      | SetupFailed \<Rightarrow> (False, inst))"

definition instance_initialize :: "setup_result \<Rightarrow> browser_instance \<Rightarrow> bool \<times> browser_instance" where
  "instance_initialize r inst =
     (case navigate_and_setup r inst of
        (True, inst') \<Rightarrow> (True, inst'\<lparr>status := Ready\<rparr>)
      | (False, inst') \<Rightarrow> (False, inst'\<lparr>status := Failed\<rparr>))"

text \<open>A \<^verbatim>\<open>BrowserInstance\<close> as its \<^verbatim>\<open>__init__\<close> leaves it, and as a successful \<^verbatim>\<open>initialize\<close>
  leaves it.\<close>

definition fresh_browser_instance :: browser_instance where
  "fresh_browser_instance = \<lparr>status = Initializing, request_count = 0\<rparr>"

definition new_browser_instance :: browser_instance where
  "new_browser_instance = \<lparr>status = Ready, request_count = 0\<rparr>"

text \<open>
  \<^verbatim>\<open>BrowserManager.create_instance\<close> draws a fresh \<^verbatim>\<open>uuid4\<close> and initialises a new instance.  The
  outcome of one call is a parameter: the identifier drawn and the course of the set-up.  The
  instance is registered only when \<^verbatim>\<open>initialize\<close> returns true.  Identifiers are \<^verbatim>\<open>uuid4\<close>
  strings and never empty, so that the truth test of the source on an identifier
  (\<^verbatim>\<open>if instance_id:\<close>, \<^verbatim>\<open>best_instance or ...\<close>) is the test for \<^verbatim>\<open>None\<close>.
\<close>

type_synonym create_outcome = "instance_id \<times> setup_result"

definition bm_create_instance :: "create_outcome \<Rightarrow> registry \<Rightarrow> instance_id option \<times> registry" where
  "bm_create_instance oc insts =
     (case oc of (uid, r) \<Rightarrow>
        (case instance_initialize r fresh_browser_instance of
           (True, inst) \<Rightarrow> (Some uid, AList.update uid inst insts)
         | (False, inst) \<Rightarrow> (None, insts)))"

text \<open>\<^verbatim>\<open>BrowserManager.remove_instance\<close>: \<^verbatim>\<open>cleanup\<close> swallows its own exceptions.\<close>

definition bm_remove_instance :: "instance_id \<Rightarrow> registry \<Rightarrow> bool \<times> registry" where
  "bm_remove_instance i insts =
     (case map_of insts i of
        Some inst \<Rightarrow> (True, AList.delete i insts)
      | None \<Rightarrow> (False, insts))"

section \<open>Instance coordinator\<close>

definition initial_metrics :: instance_metrics_entry where
  "initial_metrics =
     \<lparr>requests_handled = 0, m_total_response_time = 0, average_response_time = 0,
      errors = 0, m_status = ''healthy''\<rparr>"

definition initialize_instance_metrics :: "instance_id \<Rightarrow> coordinator \<Rightarrow> coordinator" where
  "initialize_instance_metrics i c =
     c\<lparr>instance_metrics := AList.update i initial_metrics (instance_metrics c)\<rparr>"

text \<open>\<^verbatim>\<open>InstanceCoordinator.create_instance\<close>.\<close>

definition create_instance :: "create_outcome \<Rightarrow> coordinator \<Rightarrow> instance_id option \<times> coordinator" where
  "create_instance oc c =
     (if max_instances c \<le> int (length (instances c)) then (None, c)
      else (case bm_create_instance oc (instances c) of
              (Some i, insts') \<Rightarrow>
                (Some i,
                 initialize_instance_metrics i
                   (c\<lparr>instances := insts',
                      healthy_instances := finsert i (healthy_instances c)\<rparr>))
            | (None, insts') \<Rightarrow> (None, c\<lparr>instances := insts'\<rparr>)))"

text \<open>\<^verbatim>\<open>InstanceCoordinator.remove_instance\<close>.\<close>

definition remove_instance :: "instance_id \<Rightarrow> coordinator \<Rightarrow> bool \<times> coordinator" where
  "remove_instance i c =
     (if int (fcard (healthy_instances c)) \<le> min_instances c then (False, c)
      else (case bm_remove_instance i (instances c) of
              (True, insts') \<Rightarrow>
                (True,
                 c\<lparr>instances := insts',
                   healthy_instances := healthy_instances c |-| {|i|},
                   unhealthy_instances := unhealthy_instances c |-| {|i|},
                   instance_metrics := AList.delete i (instance_metrics c)\<rparr>)
            | (False, insts') \<Rightarrow> (False, c\<lparr>instances := insts'\<rparr>)))"

text \<open>\<^verbatim>\<open>InstanceCoordinator._calculate_current_load\<close>.\<close>

definition calculate_current_load :: "coordinator \<Rightarrow> real" where
  "calculate_current_load c =
     (if healthy_instances c = {||} then 1
      else min (real (length (active_requests c)) / real (fcard (healthy_instances c))) 1)"

text \<open>The load factor in the words of the specification:
  \<open>active_request_count / max(|healthy|, 1)\<close>, clamped to \<open>[0,1]\<close>.\<close>

definition spec_load_factor :: "coordinator \<Rightarrow> real" where
  "spec_load_factor c =
     max 0 (min 1 (real (length (active_requests c)) /
                   real (max (fcard (healthy_instances c)) 1)))"

text \<open>\<^verbatim>\<open>InstanceCoordinator.initialize\<close>: one call of the browser manager per index in
  \<^verbatim>\<open>range(self.initial_count)\<close>; \<open>outs k\<close> is the outcome of the \<open>k\<close>-th call.  The result is
  \<^verbatim>\<open>False\<close> when the healthy set is empty afterwards.\<close>

definition initialize_step :: "(nat \<Rightarrow> create_outcome) \<Rightarrow> coordinator \<Rightarrow> nat \<Rightarrow> coordinator" where
  "initialize_step outs c k =
     (case bm_create_instance (outs k) (instances c) of
        (Some i, insts') \<Rightarrow>
          initialize_instance_metrics i
            (c\<lparr>instances := insts',
               healthy_instances := finsert i (healthy_instances c)\<rparr>)
      | (None, insts') \<Rightarrow> c\<lparr>instances := insts'\<rparr>)"

definition initialize :: "(nat \<Rightarrow> create_outcome) \<Rightarrow> coordinator \<Rightarrow> bool \<times> coordinator" where
  "initialize outs c =
     (let c' = foldl (initialize_step outs) c [0 ..< nat (initial_count c)]
      in (healthy_instances c' \<noteq> {||}, c'))"

text \<open>A coordinator as \<^verbatim>\<open>__init__\<close> leaves it, for the given bounds.\<close>

definition new_coordinator :: "int \<Rightarrow> int \<Rightarrow> int \<Rightarrow> coordinator" where
  "new_coordinator mn mx ic =
     \<lparr>instances = [], min_instances = mn, max_instances = mx, initial_count = ic,
      active_requests = [], healthy_instances = {||}, unhealthy_instances = {||},
      instance_metrics = []\<rparr>"

text \<open>Two instances, \<open>''a''\<close> created before \<open>''b''\<close>; \<open>''a''\<close> has failed a probe and is in the
  unhealthy set, \<open>''b''\<close> is healthy.  The floor \<open>min_instances\<close> is the parameter.\<close>

definition one_unhealthy_pool :: "int \<Rightarrow> coordinator" where
  "one_unhealthy_pool mn =
     (new_coordinator mn 5 2)
       \<lparr>instances := [(''a'', new_browser_instance), (''b'', new_browser_instance)],
        healthy_instances := {|''b''|},
        unhealthy_instances := {|''a''|},
        instance_metrics := [(''a'', initial_metrics), (''b'', initial_metrics)]\<rparr>"

text \<open>Outcomes of the browser manager in which every call succeeds: the first call draws
  \<open>''a''\<close>, every later one \<open>''b''\<close>.\<close>

definition outs_ab :: "nat \<Rightarrow> create_outcome" where
  "outs_ab k = (if k = 0 then (''a'', SetupOk) else (''b'', SetupFallback))"

section \<open>Health monitor\<close>

datatype alert_type =
  InstanceRecovered | InstanceFailed | HighFailureRate | HighResponseTime | NoHealthyInstances

record alert =
  a_type :: alert_type
  a_instance :: "instance_id option"

text \<open>The counters of \<^verbatim>\<open>HealthMonitor\<close>.  \<^verbatim>\<open>_trigger_alert\<close> hands the alert to the subscriber
  callbacks, which are outside the program; \<open>alerts\<close> is the sequence of alerts triggered so
  far, oldest first.  The rolling health history is read by no operation modelled here and is
  left out.\<close>

record health_monitor =
  total_health_checks :: int
  failed_health_checks :: int
  instances_recovered :: int
  instances_failed :: int
  alerts :: "alert list"

definition new_health_monitor :: health_monitor where
  "new_health_monitor =
     \<lparr>total_health_checks = 0, failed_health_checks = 0, instances_recovered = 0,
      instances_failed = 0, alerts = []\<rparr>"

definition trigger_alert :: "alert_type \<Rightarrow> instance_id option \<Rightarrow> health_monitor \<Rightarrow> health_monitor" where
  "trigger_alert t i h = h\<lparr>alerts := alerts h @ [\<lparr>a_type = t, a_instance = i\<rparr>]\<rparr>"

text \<open>\<^verbatim>\<open>HealthMonitor._check_replacement_needed\<close>: \<open>needed\<close> calls of the coordinator's
  \<^verbatim>\<open>create_instance\<close>, whatever each returns; \<open>outs k\<close> is the browser manager's outcome
  in the \<open>k\<close>-th round.\<close>

definition check_replacement_needed :: "(nat \<Rightarrow> create_outcome) \<Rightarrow> coordinator \<Rightarrow> coordinator" where
  "check_replacement_needed outs c =
     (let healthy_count = int (fcard (healthy_instances c)) in
      if healthy_count < min_instances c
      then foldl (\<lambda>c' k. snd (create_instance (outs k) c')) c
             [0 ..< nat (min_instances c - healthy_count)]
      else c)"

text \<open>\<^verbatim>\<open>HealthMonitor._handle_instance_failure\<close>.\<close>

definition hm_handle_instance_failure ::
  "(nat \<Rightarrow> create_outcome) \<Rightarrow> instance_id \<Rightarrow> health_monitor \<times> coordinator
     \<Rightarrow> health_monitor \<times> coordinator" where
  "hm_handle_instance_failure outs i hc =
     (case hc of (h, c) \<Rightarrow>
        let was_healthy = i |\<in>| healthy_instances c;
            c1 = c\<lparr>unhealthy_instances := finsert i (unhealthy_instances c),
                   healthy_instances := healthy_instances c |-| {|i|}\<rparr>
        in if was_healthy
           then (trigger_alert InstanceFailed (Some i)
                   (h\<lparr>instances_failed := instances_failed h + 1,
                      failed_health_checks := failed_health_checks h + 1\<rparr>),
                 check_replacement_needed outs c1)
           else (h, c1))"

text \<open>\<^verbatim>\<open>HealthMonitor._record_healthy_check\<close>.\<close>

definition record_healthy_check ::
  "instance_id \<Rightarrow> health_monitor \<times> coordinator \<Rightarrow> health_monitor \<times> coordinator" where
  "record_healthy_check i hc =
     (case hc of (h, c) \<Rightarrow>
        let h1 = (if i |\<in>| unhealthy_instances c
                  then trigger_alert InstanceRecovered (Some i)
                         (h\<lparr>instances_recovered := instances_recovered h + 1\<rparr>)
                  else h)
        in (h1, c\<lparr>healthy_instances := finsert i (healthy_instances c),
                  unhealthy_instances := unhealthy_instances c |-| {|i|}\<rparr>))"

text \<open>\<^verbatim>\<open>HealthMonitor._check_instance_health\<close>: the probe of one instance.  The answer of
  \<^verbatim>\<open>instance.health_check()\<close> under \<^verbatim>\<open>wait_for\<close> is a parameter: it returned true, returned
  false, ran into the timeout, or raised.  Every answer but the first is handled as a
  failure.\<close>

datatype probe_result = ProbeTrue | ProbeFalse | ProbeTimeout | ProbeRaised

definition check_instance_health ::
  "(nat \<Rightarrow> create_outcome) \<Rightarrow> instance_id \<Rightarrow> probe_result \<Rightarrow> health_monitor \<times> coordinator
     \<Rightarrow> health_monitor \<times> coordinator" where
  "check_instance_health outs i r hc =
     (case r of
        ProbeTrue \<Rightarrow> record_healthy_check i hc
      | ProbeFalse \<Rightarrow> hm_handle_instance_failure outs i hc
      | ProbeTimeout \<Rightarrow> hm_handle_instance_failure outs i hc
      | ProbeRaised \<Rightarrow> hm_handle_instance_failure outs i hc)"

text \<open>The number of \<^verbatim>\<open>instance_failed\<close> alerts triggered so far for instance \<open>i\<close>.\<close>

definition failed_alerts :: "instance_id \<Rightarrow> health_monitor \<Rightarrow> nat" where
  "failed_alerts i h =
     length (filter (\<lambda>a. a_type a = InstanceFailed \<and> a_instance a = Some i) (alerts h))"

section \<open>Load balancer\<close>

record active_request =
  ar_instance_id :: instance_id
  ar_start_time :: real
  ar_payload_size :: nat

record performance =
  total_requests :: int
  total_response_time :: real
  avg_response_time :: real
  success_count :: int
  error_count :: int
  last_request_time :: "real option"

record history_entry =
  he_request_id :: request_id
  he_instance_id :: instance_id
  he_response_time :: real
  he_success :: bool
  he_payload_size :: nat
  he_response_size :: int

record routing_stats =
  rs_total_requests :: int
  successful_routes :: int
  failed_routes :: int
  retries :: int
  strategy_usage :: "(string \<times> int) list"

record load_balancer =
  strategy :: string
  max_retries :: int
  round_robin_index :: nat
  lb_active_requests :: "(request_id \<times> active_request) list"
  request_history :: "history_entry list"
  stats :: routing_stats
  instance_performance :: "(instance_id \<times> performance) list"

text \<open>A load balancer as \<^verbatim>\<open>__init__\<close> leaves it, for a strategy name and a retry budget.\<close>

definition new_load_balancer :: "string \<Rightarrow> int \<Rightarrow> load_balancer" where
  "new_load_balancer s mr =
     \<lparr>strategy = s, max_retries = mr, round_robin_index = 0, lb_active_requests = [],
      request_history = [],
      stats = \<lparr>rs_total_requests = 0, successful_routes = 0, failed_routes = 0, retries = 0,
               strategy_usage = []\<rparr>,
      instance_performance = []\<rparr>"


definition enumerates :: "instance_id list \<Rightarrow> instance_id fset \<Rightarrow> bool" where
  "enumerates hl s = (distinct hl \<and> fset_of_list hl = s)"

text \<open>\<^verbatim>\<open>sum(1 for req in active_requests.values() if req.get('instance_id') == instance_id)\<close>,
  over the instance identifiers of the active requests.\<close>

definition active_count :: "instance_id list \<Rightarrow> instance_id \<Rightarrow> nat" where
  "active_count busy i = length (filter (\<lambda>j. j = i) busy)"

text \<open>A dictionary filled by \<^verbatim>\<open>for k in keys: d[k] = f(k)\<close>.\<close>

definition build_dict :: "('k \<Rightarrow> 'v) \<Rightarrow> 'k list \<Rightarrow> ('k \<times> 'v) list" where
  "build_dict f ks = foldl (\<lambda>d k. AList.update k (f k) d) [] ks"

text \<open>Python's \<^verbatim>\<open>min(xs, key=...)\<close> on a non-empty sequence \<open>best # xs\<close>: a later element replaces
  the current one only when its key is strictly smaller, so the first minimal element wins.\<close>

fun py_min_by :: "('a \<Rightarrow> nat) \<Rightarrow> 'a \<Rightarrow> 'a list \<Rightarrow> 'a" where
  "py_min_by key best [] = best"
| "py_min_by key best (x # xs) = py_min_by key (if key x < key best then x else best) xs"

text \<open>The body shared by \<^verbatim>\<open>LoadBalancer._least_busy_strategy\<close> and
  \<^verbatim>\<open>InstanceCoordinator._least_busy_selection\<close>; the two differ in the map of active requests
  they count over.\<close>

definition least_busy_of :: "instance_id list \<Rightarrow> instance_id list \<Rightarrow> instance_id option" where
  "least_busy_of busy hl =
     (if hl = [] then None
      else (case build_dict (active_count busy) hl of
              [] \<Rightarrow> None
            | p # ps \<Rightarrow> Some (fst (py_min_by snd p ps))))"

definition least_busy_strategy :: "instance_id list \<Rightarrow> load_balancer \<Rightarrow> instance_id option" where
  "least_busy_strategy hl lb =
     least_busy_of (map (\<lambda>(r, info). ar_instance_id info) (lb_active_requests lb)) hl"

definition least_busy_selection :: "instance_id list \<Rightarrow> coordinator \<Rightarrow> instance_id option" where
  "least_busy_selection hl c =
     least_busy_of (map (\<lambda>(r, info). cr_instance_id info) (active_requests c)) hl"

text \<open>The tie-break in the words of the specification: among the healthy instances with the
  least number of active requests, the one created first, that is the first in the key order
  of the registry.\<close>

definition spec_least_busy ::
  "registry \<Rightarrow> instance_id fset \<Rightarrow> instance_id list \<Rightarrow> instance_id option" where
  "spec_least_busy reg healthy busy =
     (case filter (\<lambda>i. i |\<in>| healthy) (map fst reg) of
        [] \<Rightarrow> None
      | j # js \<Rightarrow> Some (py_min_by (active_count busy) j js))"










text \<open>\<^verbatim>\<open>LoadBalancer._track_request\<close>; \<open>psize\<close> is \<^verbatim>\<open>len(str(payload))\<close>, \<open>now\<close> the clock.\<close>

definition new_performance :: performance where
  "new_performance =
     \<lparr>total_requests = 0, total_response_time = 0, avg_response_time = 0,
      success_count = 0, error_count = 0, last_request_time = None\<rparr>"

definition track_request ::
  "request_id \<Rightarrow> instance_id \<Rightarrow> nat \<Rightarrow> real \<Rightarrow> load_balancer \<Rightarrow> load_balancer" where
  "track_request rid i psize now lb =
     (let perf = (case map_of (instance_performance lb) i of
                    None \<Rightarrow> new_performance
                  | Some p \<Rightarrow> p)
      in lb\<lparr>lb_active_requests :=
               AList.update rid
                 \<lparr>ar_instance_id = i, ar_start_time = now, ar_payload_size = psize\<rparr>
                 (lb_active_requests lb),
             instance_performance :=
               AList.update i
                 (perf\<lparr>total_requests := total_requests perf + 1,
                        last_request_time := Some now\<rparr>)
                 (instance_performance lb)\<rparr>)"



text \<open>
  \<^verbatim>\<open>LoadBalancer.complete_request\<close>; \<open>now\<close> is the clock at the call.  The division by
  \<^verbatim>\<open>perf['total_requests']\<close> raises \<^verbatim>\<open>ZeroDivisionError\<close> on a zero count; the handler of the
  method logs it, and the method ends with the request popped and the total time already
  updated, but no counter changed and no history entry written.
\<close>

definition append_history :: "history_entry \<Rightarrow> load_balancer \<Rightarrow> load_balancer" where
  "append_history e lb =
     (let h = request_history lb @ [e]
      in lb\<lparr>request_history := (if 1000 < length h then drop (length h - 1000) h else h)\<rparr>)"








text \<open>The number of active requests of the load balancer, and of the coordinator, that are
  bound to instance \<open>i\<close>.\<close>

definition lb_load :: "load_balancer \<Rightarrow> instance_id \<Rightarrow> nat" where
  "lb_load lb i = active_count (map (\<lambda>(r, info). ar_instance_id info) (lb_active_requests lb)) i"

definition coord_load :: "coordinator \<Rightarrow> instance_id \<Rightarrow> nat" where
  "coord_load c i = active_count (map (\<lambda>(r, info). cr_instance_id info) (active_requests c)) i"

section \<open>Example states\<close>

text \<open>Two healthy instances without load, \<open>''a''\<close> created before \<open>''b''\<close>.\<close>

definition tie_pool :: coordinator where
  "tie_pool =
     (new_coordinator 1 5 2)
       \<lparr>instances := [(''a'', new_browser_instance), (''b'', new_browser_instance)],
        healthy_instances := {|''a'', ''b''|},
        instance_metrics := [(''a'', initial_metrics), (''b'', initial_metrics)]\<rparr>"




section \<open>Initialisation of an instance\<close>

lemma instance_initialize_cases:
  "instance_initialize r fresh_browser_instance =
     (if r = SetupFailed then (False, \<lparr>status = Failed, request_count = 0\<rparr>)
      else (True, new_browser_instance))"
  by (cases r)
    (simp_all add: instance_initialize_def navigate_and_setup_def setup_fallback_mode_def
      fresh_browser_instance_def new_browser_instance_def)

lemma bm_create_instance_cases:
  "bm_create_instance (uid, r) insts =
     (if r = SetupFailed then (None, insts)
      else (Some uid, AList.update uid new_browser_instance insts))"
  by (simp add: bm_create_instance_def instance_initialize_cases)

lemma instance_initialize_ready:
  "fst (instance_initialize r inst) \<Longrightarrow> status (snd (instance_initialize r inst)) = Ready"
  by (cases r)
    (simp_all add: instance_initialize_def navigate_and_setup_def setup_fallback_mode_def)

section \<open>The example pools arise from a fresh coordinator\<close>

lemma upt_two: "[0 ..< (2::nat)] = [0, Suc 0]"
  by (simp add: numeral_2_eq_2)

text \<open>\<open>tie_pool\<close> is the pool after \<^verbatim>\<open>initialize\<close> with two successful launches;
  \<open>one_unhealthy_pool\<close> is that pool after one failed probe of \<open>''a''\<close>.\<close>

lemma tie_pool_reachable:
  "initialize outs_ab (new_coordinator 1 5 2) = (True, tie_pool)"
  by (auto simp: initialize_def initialize_step_def bm_create_instance_cases new_coordinator_def
      initialize_instance_metrics_def outs_ab_def upt_two Let_def tie_pool_def)

lemma one_unhealthy_pool_reachable:
  "mn \<le> 1 \<Longrightarrow>
     snd (check_instance_health outs ''a'' ProbeFalse
            (new_health_monitor, snd (initialize outs_ab (new_coordinator mn 5 2)))) =
     one_unhealthy_pool mn"
  by (auto simp: initialize_def initialize_step_def bm_create_instance_cases new_coordinator_def
      initialize_instance_metrics_def outs_ab_def upt_two Let_def one_unhealthy_pool_def
      check_instance_health_def hm_handle_instance_failure_def check_replacement_needed_def
      fcard_finsert_if)

section \<open>Load factor\<close>

lemma calculate_current_load_bounds:
  "0 \<le> calculate_current_load c \<and> calculate_current_load c \<le> 1"
  by (simp add: calculate_current_load_def)

text \<open>
  Claim C8 as stated fails: with an empty healthy set and no active request the source returns
  \<open>1.0\<close> (``Max load if no healthy instances''), where the formula of the specification
  gives \<open>0\<close>.
\<close>

theorem load_factor_empty_pool_counterexample:
  "healthy_instances (new_coordinator 1 5 1) = {||} \<and>
   length (active_requests (new_coordinator 1 5 1)) = 0 \<and>
   calculate_current_load (new_coordinator 1 5 1) = 1 \<and>
   spec_load_factor (new_coordinator 1 5 1) = 0 \<and>
   calculate_current_load (new_coordinator 1 5 1) \<noteq> spec_load_factor (new_coordinator 1 5 1)"
  by (simp add: calculate_current_load_def spec_load_factor_def new_coordinator_def)

text \<open>
  Claim C8, amended: when the healthy set is not empty the computed load factor equals
  \<open>active_request_count / max(|healthy|, 1)\<close> clamped to \<open>[0,1]\<close>; when the healthy set is
  empty the load factor is \<open>1\<close>, whatever the number of active requests; in every state it lies
  in \<open>[0,1]\<close>.
\<close>

theorem calculate_current_load_amended:
  "(healthy_instances c \<noteq> {||} \<longrightarrow> calculate_current_load c = spec_load_factor c) \<and>
   (healthy_instances c = {||} \<longrightarrow> calculate_current_load c = 1) \<and>
   0 \<le> calculate_current_load c \<and> calculate_current_load c \<le> 1"
proof -
  have "calculate_current_load c = spec_load_factor c" if ne: "healthy_instances c \<noteq> {||}"
  proof -
    have "fcard (healthy_instances c) \<noteq> 0"
      using ne fcard_0_eq [of "healthy_instances c"] by blast
    then have m: "max (fcard (healthy_instances c)) (Suc 0) = fcard (healthy_instances c)"
      by arith
    have nn: "0 \<le> real (length (active_requests c)) / real (fcard (healthy_instances c))"
      by simp
    show ?thesis
      using ne nn by (simp add: calculate_current_load_def spec_load_factor_def m min.commute)
  qed
  moreover have "calculate_current_load c = 1" if "healthy_instances c = {||}"
    using that by (simp add: calculate_current_load_def)
  ultimately show ?thesis
    using calculate_current_load_bounds [of c] by blast
qed

theorem calculate_current_load_amended_witness:
  "healthy_instances ((new_coordinator 1 5 1)
      \<lparr>healthy_instances := {|''a'', ''b''|},
       active_requests := [(''r1'', \<lparr>cr_instance_id = ''a'', cr_start_time = 0\<rparr>)]\<rparr>) \<noteq> {||} \<and>
   calculate_current_load ((new_coordinator 1 5 1)
      \<lparr>healthy_instances := {|''a'', ''b''|},
       active_requests := [(''r1'', \<lparr>cr_instance_id = ''a'', cr_start_time = 0\<rparr>)]\<rparr>) = 1 / 2 \<and>
   spec_load_factor ((new_coordinator 1 5 1)
      \<lparr>healthy_instances := {|''a'', ''b''|},
       active_requests := [(''r1'', \<lparr>cr_instance_id = ''a'', cr_start_time = 0\<rparr>)]\<rparr>) = 1 / 2 \<and>
   healthy_instances (new_coordinator 1 5 1) = {||} \<and>
   calculate_current_load (new_coordinator 1 5 1) = 1"
  using calculate_current_load_amended [of "(new_coordinator 1 5 1)
      \<lparr>healthy_instances := {|''a'', ''b''|},
       active_requests := [(''r1'', \<lparr>cr_instance_id = ''a'', cr_start_time = 0\<rparr>)]\<rparr>"]
    calculate_current_load_amended [of "new_coordinator 1 5 1"]
  by (simp add: spec_load_factor_def new_coordinator_def fcard_finsert_if)

section \<open>Removal and the healthy floor\<close>

text \<open>
  Claim C1 as stated fails: \<^verbatim>\<open>remove_instance\<close> tests the floor before it looks at the
  instance, so with \<open>|healthy| = min_instances = 1\<close> the removal of the unhealthy instance
  \<open>''a''\<close> is refused; the same call with the floor at \<open>0\<close> succeeds, so the floor is the reason.
\<close>

theorem remove_unhealthy_blocked_by_floor_counterexample:
  "''a'' |\<in>| unhealthy_instances (one_unhealthy_pool 1) \<and>
   ''a'' |\<notin>| healthy_instances (one_unhealthy_pool 1) \<and>
   map_of (instances (one_unhealthy_pool 1)) ''a'' \<noteq> None \<and>
   fst (remove_instance ''a'' (one_unhealthy_pool 1)) = False \<and>
   fst (remove_instance ''a'' (one_unhealthy_pool 0)) = True"
  by (simp add: one_unhealthy_pool_def new_coordinator_def remove_instance_def
      bm_remove_instance_def fcard_finsert_if)

text \<open>
  Claim C1, amended: \<^verbatim>\<open>remove(instance_id)\<close> returns false and changes nothing whenever
  \<open>|healthy| \<le> min_instances\<close>, for a healthy and for an unhealthy instance alike; when
  \<open>|healthy| > min_instances\<close> it returns true exactly when the instance is in the registry,
  and then the instance is in neither membership set and no longer registered.
\<close>

theorem remove_instance_floor_amended:
  "(int (fcard (healthy_instances c)) \<le> min_instances c \<longrightarrow>
      remove_instance i c = (False, c)) \<and>
   (min_instances c < int (fcard (healthy_instances c)) \<longrightarrow>
      fst (remove_instance i c) = (map_of (instances c) i \<noteq> None) \<and>
      (fst (remove_instance i c) \<longrightarrow>
         i |\<notin>| healthy_instances (snd (remove_instance i c)) \<and>
         i |\<notin>| unhealthy_instances (snd (remove_instance i c)) \<and>
         map_of (instances (snd (remove_instance i c))) i = None))"
  by (auto simp: remove_instance_def bm_remove_instance_def delete_conv split: option.splits)

theorem remove_instance_floor_amended_witness:
  "int (fcard (healthy_instances (one_unhealthy_pool 1))) \<le> min_instances (one_unhealthy_pool 1) \<and>
   remove_instance ''a'' (one_unhealthy_pool 1) = (False, one_unhealthy_pool 1) \<and>
   remove_instance ''b'' (one_unhealthy_pool 1) = (False, one_unhealthy_pool 1) \<and>
   min_instances (one_unhealthy_pool 0) < int (fcard (healthy_instances (one_unhealthy_pool 0))) \<and>
   fst (remove_instance ''a'' (one_unhealthy_pool 0)) \<and>
   ''a'' |\<notin>| unhealthy_instances (snd (remove_instance ''a'' (one_unhealthy_pool 0)))"
  using remove_instance_floor_amended [of "one_unhealthy_pool 1" "''a''"]
    remove_instance_floor_amended [of "one_unhealthy_pool 1" "''b''"]
    remove_instance_floor_amended [of "one_unhealthy_pool 0" "''a''"]
  by (simp add: one_unhealthy_pool_def new_coordinator_def fcard_finsert_if)

section \<open>Creation and membership\<close>

text \<open>
  Claim C2 as stated fails: a successful \<^verbatim>\<open>create_instance\<close> adds the new identifier to the
  healthy set before it returns.
\<close>

theorem create_instance_healthy_counterexample:
  "fst (create_instance (''a'', SetupOk) (new_coordinator 1 5 1)) = Some ''a'' \<and>
   ''a'' |\<in>| healthy_instances (snd (create_instance (''a'', SetupOk) (new_coordinator 1 5 1)))"
  by (simp add: create_instance_def bm_create_instance_cases new_coordinator_def
      initialize_instance_metrics_def)

text \<open>
  Claim C2, amended: for every successful \<^verbatim>\<open>create\<close> call, the newly created instance is
  registered and is a member of the healthy set immediately after \<^verbatim>\<open>create\<close> returns, and
  \<^verbatim>\<open>create\<close> leaves the unhealthy set as it was; a successful health probe afterwards keeps the
  instance in the healthy set.
\<close>

theorem create_instance_healthy_amended:
  "create_instance oc c = (Some i, c') \<Longrightarrow>
     i |\<in>| healthy_instances c' \<and>
     unhealthy_instances c' = unhealthy_instances c \<and>
     map_of (instances c') i \<noteq> None \<and>
     i |\<in>| healthy_instances (snd (record_healthy_check i (h, c')))"
  by (cases oc)
    (auto simp: create_instance_def bm_create_instance_cases initialize_instance_metrics_def
      record_healthy_check_def update_conv' Let_def split: if_splits)

theorem create_instance_healthy_amended_witness:
  "create_instance (''a'', SetupOk) (new_coordinator 1 5 1) =
     (Some ''a'', snd (create_instance (''a'', SetupOk) (new_coordinator 1 5 1))) \<and>
   ''a'' |\<in>| healthy_instances (snd (create_instance (''a'', SetupOk) (new_coordinator 1 5 1))) \<and>
   unhealthy_instances (snd (create_instance (''a'', SetupOk) (new_coordinator 1 5 1))) = {||}"
proof -
  have e: "create_instance (''a'', SetupOk) (new_coordinator 1 5 1) =
     (Some ''a'', snd (create_instance (''a'', SetupOk) (new_coordinator 1 5 1)))"
    by (simp add: create_instance_def bm_create_instance_cases new_coordinator_def
      initialize_instance_metrics_def)
  show ?thesis
    using e create_instance_healthy_amended [OF e, of new_health_monitor]
    by (simp add: new_coordinator_def)
qed

section \<open>The bound on the pool\<close>

text \<open>
  \<^verbatim>\<open>create_instance\<close> refuses at the bound and never exceeds it, and so do the replacement
  requests of the health monitor, which go through it.
\<close>

lemma length_update_le: "length (AList.update k v al) \<le> Suc (length al)"
  by (induction al) auto

lemma create_instance_bound:
  "int (length (instances c)) \<le> max_instances c \<Longrightarrow>
     int (length (instances (snd (create_instance oc c)))) \<le> max_instances c \<and>
     max_instances (snd (create_instance oc c)) = max_instances c"
  by (cases oc)
    (use length_update_le [of "fst oc" new_browser_instance "instances c"] in
      \<open>auto simp: create_instance_def bm_create_instance_cases initialize_instance_metrics_def\<close>)

lemma create_instance_at_max:
  "int (length (instances c)) = max_instances c \<Longrightarrow> create_instance oc c = (None, c)"
  by (simp add: create_instance_def)

lemma create_loop_bound:
  "int (length (instances c)) \<le> max_instances c \<Longrightarrow>
     int (length (instances (foldl (\<lambda>c' k. snd (create_instance (outs k) c')) c ks)))
       \<le> max_instances c \<and>
     max_instances (foldl (\<lambda>c' k. snd (create_instance (outs k) c')) c ks) = max_instances c"
proof (induction ks arbitrary: c)
  case Nil
  then show ?case by simp
next
  case (Cons k ks)
  from create_instance_bound [OF Cons.prems, of "outs k"]
  have "int (length (instances (snd (create_instance (outs k) c))))
          \<le> max_instances (snd (create_instance (outs k) c))"
    and m: "max_instances (snd (create_instance (outs k) c)) = max_instances c"
    by simp_all
  from Cons.IH [OF this(1)] m show ?case by simp
qed

lemma check_replacement_bound:
  "int (length (instances c)) \<le> max_instances c \<Longrightarrow>
     int (length (instances (check_replacement_needed outs c))) \<le> max_instances c"
  by (simp add: check_replacement_needed_def Let_def create_loop_bound)

text \<open>
  Claim C7: the total number of instances in the registry never exceeds \<open>max_instances\<close>,
  initial pool creation included.  \<^verbatim>\<open>initialize\<close> does not hold it: it calls the browser
  manager directly, \<open>initial_count\<close> times, without the test that \<^verbatim>\<open>create_instance\<close> makes.
  With \<open>max_instances = 1\<close> and \<open>initial_count = 2\<close>, and both launches succeeding, the registry
  ends with two instances.
\<close>

theorem initialize_exceeds_max_instances:
  "max_instances (new_coordinator 1 1 2) = 1 \<and>
   fst (initialize outs_ab (new_coordinator 1 1 2)) = True \<and>
   map fst (instances (snd (initialize outs_ab (new_coordinator 1 1 2)))) = [''a'', ''b''] \<and>
   max_instances (snd (initialize outs_ab (new_coordinator 1 1 2))) = 1 \<and>
   max_instances (snd (initialize outs_ab (new_coordinator 1 1 2))) <
     int (length (instances (snd (initialize outs_ab (new_coordinator 1 1 2)))))"
proof -
  have u: "[0 ..< (2::nat)] = [0, Suc 0]"
    by (simp add: numeral_2_eq_2)
  show ?thesis
    by (simp add: initialize_def initialize_step_def bm_create_instance_cases new_coordinator_def
        initialize_instance_metrics_def outs_ab_def u Let_def)
qed

section \<open>Failure alerts\<close>

lemma create_instance_other_membership:
  "fst oc \<noteq> i \<Longrightarrow>
     (i |\<in>| healthy_instances (snd (create_instance oc c))) = (i |\<in>| healthy_instances c)"
  by (cases oc)
    (simp add: create_instance_def bm_create_instance_cases initialize_instance_metrics_def)

lemma create_instance_unhealthy:
  "unhealthy_instances (snd (create_instance oc c)) = unhealthy_instances c"
  by (cases oc)
    (simp add: create_instance_def bm_create_instance_cases initialize_instance_metrics_def)

lemma create_loop_other_membership:
  "\<forall>k. fst (outs k) \<noteq> i \<Longrightarrow>
     (i |\<in>| healthy_instances (foldl (\<lambda>c' k. snd (create_instance (outs k) c')) c ks)) =
     (i |\<in>| healthy_instances c)"
  by (induction ks arbitrary: c) (simp_all add: create_instance_other_membership)

lemma create_loop_unhealthy:
  "unhealthy_instances (foldl (\<lambda>c' k. snd (create_instance (outs k) c')) c ks) =
     unhealthy_instances c"
  by (induction ks arbitrary: c) (simp_all add: create_instance_unhealthy)

lemma check_replacement_other_membership:
  "\<forall>k. fst (outs k) \<noteq> i \<Longrightarrow>
     (i |\<in>| healthy_instances (check_replacement_needed outs c)) = (i |\<in>| healthy_instances c)"
  by (simp add: check_replacement_needed_def Let_def create_loop_other_membership)

lemma check_replacement_unhealthy:
  "unhealthy_instances (check_replacement_needed outs c) = unhealthy_instances c"
  by (simp add: check_replacement_needed_def Let_def create_loop_unhealthy)

lemma failed_alerts_trigger:
  "failed_alerts i (trigger_alert t j h) =
     failed_alerts i h + (if t = InstanceFailed \<and> j = Some i then 1 else 0)"
  by (simp add: failed_alerts_def trigger_alert_def)

lemma failed_alerts_counters [simp]:
  "failed_alerts i (h\<lparr>instances_failed := x\<rparr>) = failed_alerts i h"
  "failed_alerts i (h\<lparr>failed_health_checks := y\<rparr>) = failed_alerts i h"
  "failed_alerts i (h\<lparr>instances_recovered := z\<rparr>) = failed_alerts i h"
  by (simp_all add: failed_alerts_def)

lemma failure_on_healthy:
  "i |\<in>| healthy_instances c \<Longrightarrow>
     failed_alerts i (fst (hm_handle_instance_failure outs i (h, c))) = failed_alerts i h + 1 \<and>
     alerts (fst (hm_handle_instance_failure outs i (h, c))) =
       alerts h @ [\<lparr>a_type = InstanceFailed, a_instance = Some i\<rparr>] \<and>
     i |\<in>| unhealthy_instances (snd (hm_handle_instance_failure outs i (h, c)))"
  by (simp add: hm_handle_instance_failure_def Let_def failed_alerts_trigger
      check_replacement_unhealthy) (simp add: trigger_alert_def)

lemma failure_on_healthy_fresh:
  "i |\<in>| healthy_instances c \<Longrightarrow> \<forall>k. fst (outs k) \<noteq> i \<Longrightarrow>
     i |\<notin>| healthy_instances (snd (hm_handle_instance_failure outs i (h, c)))"
  by (simp add: hm_handle_instance_failure_def Let_def check_replacement_other_membership)

lemma failure_on_not_healthy:
  "i |\<notin>| healthy_instances c \<Longrightarrow>
     fst (hm_handle_instance_failure outs i (h, c)) = h \<and>
     i |\<notin>| healthy_instances (snd (hm_handle_instance_failure outs i (h, c))) \<and>
     i |\<in>| unhealthy_instances (snd (hm_handle_instance_failure outs i (h, c)))"
  by (simp add: hm_handle_instance_failure_def Let_def)

lemma failed_probe:
  "r \<noteq> ProbeTrue \<Longrightarrow>
     check_instance_health outs i r hc = hm_handle_instance_failure outs i hc"
  by (cases r) (simp_all add: check_instance_health_def)

text \<open>
  Claim C6: the \<^verbatim>\<open>instance_failed\<close> alert fires exactly once per healthy-to-unhealthy edge.
  A failed probe (false, timeout or exception) of an instance in the healthy set triggers
  exactly one alert, the \<^verbatim>\<open>instance_failed\<close> alert of that instance; a failed probe of an instance
  that is not in the healthy set triggers nothing and leaves the monitor as it was; and after
  the first failed probe the instance is unhealthy, so that a second consecutive failed probe
  leaves the count of its \<^verbatim>\<open>instance_failed\<close> alerts at one more than before the first.  (The
  identifiers drawn for replacement instances are fresh, hence differ from \<open>i\<close>.)
\<close>

theorem instance_failed_once_per_edge:
  assumes "r \<noteq> ProbeTrue" and "r' \<noteq> ProbeTrue"
  shows "(i |\<in>| healthy_instances c \<longrightarrow>
            alerts (fst (check_instance_health outs i r (h, c))) =
              alerts h @ [\<lparr>a_type = InstanceFailed, a_instance = Some i\<rparr>] \<and>
            failed_alerts i (fst (check_instance_health outs i r (h, c))) =
              failed_alerts i h + 1) \<and>
         (i |\<notin>| healthy_instances c \<longrightarrow>
            fst (check_instance_health outs i r (h, c)) = h \<and>
            i |\<notin>| healthy_instances (snd (check_instance_health outs i r (h, c)))) \<and>
         (i |\<in>| healthy_instances c \<and> (\<forall>k. fst (outs k) \<noteq> i) \<longrightarrow>
            i |\<notin>| healthy_instances (snd (check_instance_health outs i r (h, c))) \<and>
            i |\<in>| unhealthy_instances (snd (check_instance_health outs i r (h, c))) \<and>
            failed_alerts i
              (fst (check_instance_health outs' i r' (check_instance_health outs i r (h, c)))) =
              failed_alerts i h + 1)"
proof -
  have a: "check_instance_health outs i r (h, c) = hm_handle_instance_failure outs i (h, c)"
    using assms(1) by (rule failed_probe)
  have b: "check_instance_health outs' i r' hc = hm_handle_instance_failure outs' i hc" for hc
    using assms(2) by (rule failed_probe)
  have p1: "alerts (fst (hm_handle_instance_failure outs i (h, c))) =
              alerts h @ [\<lparr>a_type = InstanceFailed, a_instance = Some i\<rparr>] \<and>
            failed_alerts i (fst (hm_handle_instance_failure outs i (h, c))) =
              failed_alerts i h + 1" if "i |\<in>| healthy_instances c"
    using failure_on_healthy [OF that, of outs h] by simp
  have p2: "fst (hm_handle_instance_failure outs i (h, c)) = h \<and>
            i |\<notin>| healthy_instances (snd (hm_handle_instance_failure outs i (h, c)))"
    if "i |\<notin>| healthy_instances c"
    using failure_on_not_healthy [OF that, of outs h] by simp
  have p3: "i |\<notin>| healthy_instances (snd (hm_handle_instance_failure outs i (h, c))) \<and>
            i |\<in>| unhealthy_instances (snd (hm_handle_instance_failure outs i (h, c))) \<and>
            failed_alerts i
              (fst (hm_handle_instance_failure outs' i (hm_handle_instance_failure outs i (h, c)))) =
              failed_alerts i h + 1"
    if hl: "i |\<in>| healthy_instances c" and fr: "\<forall>k. fst (outs k) \<noteq> i"
  proof -
    obtain h1 c1 where e: "hm_handle_instance_failure outs i (h, c) = (h1, c1)"
      by (cases "hm_handle_instance_failure outs i (h, c)")
    have n: "i |\<notin>| healthy_instances c1"
      using failure_on_healthy_fresh [OF hl fr, of h] e by simp
    have u: "i |\<in>| unhealthy_instances c1" and f1: "failed_alerts i h1 = failed_alerts i h + 1"
      using failure_on_healthy [OF hl, of outs h] e by simp_all
    have "fst (hm_handle_instance_failure outs' i (h1, c1)) = h1"
      using failure_on_not_healthy [OF n] by simp
    then show ?thesis
      using n u f1 e by simp
  qed
  show ?thesis
    unfolding a b using p1 p2 p3 by blast
qed

theorem instance_failed_once_per_edge_witness:
  "ProbeFalse \<noteq> ProbeTrue \<and> ProbeTimeout \<noteq> ProbeTrue \<and>
   ''b'' |\<in>| healthy_instances (one_unhealthy_pool 1) \<and>
   ''a'' |\<notin>| healthy_instances (one_unhealthy_pool 1) \<and>
   (\<forall>k. fst ((\<lambda>k. (''c'', SetupFailed)) k) \<noteq> ''b'') \<and>
   alerts (fst (check_instance_health (\<lambda>k. (''c'', SetupFailed)) ''b'' ProbeFalse
                  (new_health_monitor, one_unhealthy_pool 1))) =
     [\<lparr>a_type = InstanceFailed, a_instance = Some ''b''\<rparr>] \<and>
   fst (check_instance_health (\<lambda>k. (''c'', SetupFailed)) ''a'' ProbeFalse
          (new_health_monitor, one_unhealthy_pool 1)) = new_health_monitor \<and>
   failed_alerts ''b''
     (fst (check_instance_health (\<lambda>k. (''c'', SetupFailed)) ''b'' ProbeTimeout
        (check_instance_health (\<lambda>k. (''c'', SetupFailed)) ''b'' ProbeFalse
           (new_health_monitor, one_unhealthy_pool 1)))) = 1"
proof -
  have r: "ProbeFalse \<noteq> ProbeTrue" and r': "ProbeTimeout \<noteq> ProbeTrue"
    by simp_all
  show ?thesis
    using instance_failed_once_per_edge [OF r r', of "''b''" "one_unhealthy_pool 1"
        "\<lambda>k. (''c'', SetupFailed)" new_health_monitor "\<lambda>k. (''c'', SetupFailed)"]
      instance_failed_once_per_edge [OF r r', of "''a''" "one_unhealthy_pool 1"
        "\<lambda>k. (''c'', SetupFailed)" new_health_monitor "\<lambda>k. (''c'', SetupFailed)"]
    by (simp add: one_unhealthy_pool_def new_coordinator_def new_health_monitor_def
        failed_alerts_def)
qed

section \<open>Least-busy selection\<close>

lemma update_fresh: "k \<notin> fst ` set d \<Longrightarrow> AList.update k v d = d @ [(k, v)]"
  by (induction d) auto

lemma build_dict_from:
  "distinct (map fst d @ ks) \<Longrightarrow>
     foldl (\<lambda>d k. AList.update k (f k) d) d ks = d @ map (\<lambda>k. (k, f k)) ks"
proof (induction ks arbitrary: d)
  case Nil
  then show ?case by simp
next
  case (Cons k ks)
  from Cons.prems have fresh: "k \<notin> fst ` set d"
    by auto
  from Cons.prems have "distinct (map fst (d @ [(k, f k)]) @ ks)"
    by auto
  from Cons.IH [OF this] show ?case
    by (simp add: update_fresh [OF fresh])
qed

lemma build_dict_distinct: "distinct ks \<Longrightarrow> build_dict f ks = map (\<lambda>k. (k, f k)) ks"
  using build_dict_from [of "[]" ks f] by (simp add: build_dict_def)

lemma py_min_by_inv:
  "(\<forall>y\<in>set pre0. key best < key y) \<Longrightarrow> (\<forall>y\<in>set post0. key best \<le> key y) \<Longrightarrow>
     \<exists>pre post. pre0 @ best # post0 @ xs = pre @ py_min_by key best xs # post \<and>
       (\<forall>y\<in>set pre. key (py_min_by key best xs) < key y) \<and>
       (\<forall>y\<in>set post. key (py_min_by key best xs) \<le> key y)"
proof (induction xs arbitrary: best pre0 post0)
  case Nil
  then show ?case by auto
next
  case (Cons x xs)
  show ?case
  proof (cases "key x < key best")
    case True
    have a: "\<forall>y\<in>set (pre0 @ best # post0). key x < key y"
      using True Cons.prems by fastforce
    have b: "\<forall>y\<in>set ([]::'a list). key x \<le> key y"
      by simp
    from Cons.IH [OF a b] True show ?thesis
      by simp
  next
    case False
    have b: "\<forall>y\<in>set (post0 @ [x]). key best \<le> key y"
      using False Cons.prems(2) by auto
    from Cons.IH [OF Cons.prems(1) b] False show ?thesis
      by simp
  qed
qed

lemma least_busy_of_first_minimum:
  assumes "hl \<noteq> []" and "distinct hl"
  shows "\<exists>i pre post. least_busy_of busy hl = Some i \<and> hl = pre @ i # post \<and>
           (\<forall>j\<in>set pre. active_count busy i < active_count busy j) \<and>
           (\<forall>j\<in>set post. active_count busy i \<le> active_count busy j)"
proof -
  let ?g = "\<lambda>k. (k, active_count busy k)"
  obtain h t where hl: "hl = h # t"
    using assms(1) by (cases hl) auto
  have d: "build_dict (active_count busy) hl = ?g h # map ?g t"
    using build_dict_distinct [OF assms(2)] hl by simp
  let ?m = "py_min_by snd (?g h) (map ?g t)"
  have r: "least_busy_of busy hl = Some (fst ?m)"
    using hl d by (simp add: least_busy_of_def)
  from py_min_by_inv [of "[]" snd "?g h" "[]" "map ?g t"]
  obtain pre post where p: "?g h # map ?g t = pre @ ?m # post"
    and lt: "\<forall>y\<in>set pre. snd ?m < snd y" and le: "\<forall>y\<in>set post. snd ?m \<le> snd y"
    by auto
  have mp: "map ?g hl = pre @ ?m # post"
    using p hl by simp
  have sn: "snd y = active_count busy (fst y)" if "y \<in> set (map ?g hl)" for y
    using that by auto
  have "?m \<in> set (map ?g hl)"
    unfolding mp by simp
  then have sm: "snd ?m = active_count busy (fst ?m)"
    by (rule sn)
  have "map fst (map ?g hl) = hl"
    by (simp add: comp_def)
  then have e: "hl = map fst pre @ fst ?m # map fst post"
    unfolding mp by simp
  have "\<forall>j\<in>set (map fst pre). active_count busy (fst ?m) < active_count busy j"
  proof
    fix j assume "j \<in> set (map fst pre)"
    then obtain y where y: "y \<in> set pre" "j = fst y" by auto
    then have "y \<in> set (map ?g hl)" unfolding mp by simp
    from sn [OF this] lt y sm show "active_count busy (fst ?m) < active_count busy j"
      by fastforce
  qed
  moreover have "\<forall>j\<in>set (map fst post). active_count busy (fst ?m) \<le> active_count busy j"
  proof
    fix j assume "j \<in> set (map fst post)"
    then obtain y where y: "y \<in> set post" "j = fst y" by auto
    then have "y \<in> set (map ?g hl)" unfolding mp by simp
    from sn [OF this] le y sm show "active_count busy (fst ?m) \<le> active_count busy j"
      by fastforce
  qed
  ultimately show ?thesis
    using r e by blast
qed

lemma least_busy_of_minimum:
  assumes "enumerates hl healthy" and "healthy \<noteq> {||}"
  shows "\<exists>i pre post. least_busy_of busy hl = Some i \<and> i |\<in>| healthy \<and>
           active_count busy i = Min (active_count busy ` fset healthy) \<and>
           hl = pre @ i # post \<and> (\<forall>j\<in>set pre. active_count busy i < active_count busy j)"
proof -
  have dist: "distinct hl" and fs: "fset_of_list hl = healthy"
    using assms(1) by (simp_all add: enumerates_def)
  have ne: "hl \<noteq> []"
    using fs assms(2) by auto
  from least_busy_of_first_minimum [OF ne dist, of busy]
  obtain i pre post where r: "least_busy_of busy hl = Some i" and e: "hl = pre @ i # post"
    and lt: "\<forall>j\<in>set pre. active_count busy i < active_count busy j"
    and le: "\<forall>j\<in>set post. active_count busy i \<le> active_count busy j"
    by blast
  have s: "fset healthy = set hl"
    using fs by (auto simp: fset_of_list.rep_eq)
  have mem: "i |\<in>| healthy"
    using s e by simp
  have all: "active_count busy i \<le> active_count busy j" if "j \<in> set hl" for j
    using that lt le unfolding e by (auto intro: less_imp_le)
  have "Min (active_count busy ` fset healthy) = active_count busy i"
  proof (rule Min_eqI)
    show "finite (active_count busy ` fset healthy)" by simp
    show "active_count busy i \<in> active_count busy ` fset healthy"
      using mem by auto
    show "y \<in> active_count busy ` fset healthy \<Longrightarrow> active_count busy i \<le> y" for y
      using all s by auto
  qed
  then show ?thesis
    using r mem e lt by auto
qed

text \<open>
  Claim C3 as stated fails in its tie-break: both instances are idle, \<open>''a''\<close> was created
  first, the healthy set is iterated as \<open>''b''\<close>, \<open>''a''\<close> (Python does not order a set by
  insertion, let alone by creation), and both selections return \<open>''b''\<close>.
\<close>

theorem least_busy_tie_counterexample:
  "map fst (instances tie_pool) = [''a'', ''b''] \<and>
   enumerates [''b'', ''a''] (healthy_instances tie_pool) \<and>
   lb_load (new_load_balancer ''least_busy'' 3) ''a'' =
     lb_load (new_load_balancer ''least_busy'' 3) ''b'' \<and>
   least_busy_strategy [''b'', ''a''] (new_load_balancer ''least_busy'' 3) = Some ''b'' \<and>
   least_busy_selection [''b'', ''a''] tie_pool = Some ''b'' \<and>
   spec_least_busy (instances tie_pool) (healthy_instances tie_pool) [] = Some ''a''"
  by (auto simp: enumerates_def tie_pool_def new_coordinator_def least_busy_strategy_def
      least_busy_selection_def least_busy_of_def build_dict_def new_load_balancer_def
      active_count_def spec_least_busy_def lb_load_def)

text \<open>
  Claim C3, amended: for every healthy set with at least one instance and every active-request
  map, the least-busy strategy of the load balancer and the least-busy selection of the
  coordinator return a healthy instance whose active-request count equals the minimum over the
  healthy set, and among instances tied at that minimum the one that comes first in the iteration
  order of the healthy set: every instance before it in that order has strictly more active
  requests.
\<close>

theorem least_busy_first_in_iteration_order:
  assumes "enumerates hl (healthy_instances c)" and "healthy_instances c \<noteq> {||}"
  shows "(\<exists>i pre post. least_busy_strategy hl lb = Some i \<and> i |\<in>| healthy_instances c \<and>
            lb_load lb i = Min (lb_load lb ` fset (healthy_instances c)) \<and>
            hl = pre @ i # post \<and> (\<forall>j\<in>set pre. lb_load lb i < lb_load lb j)) \<and>
         (\<exists>i pre post. least_busy_selection hl c = Some i \<and> i |\<in>| healthy_instances c \<and>
            coord_load c i = Min (coord_load c ` fset (healthy_instances c)) \<and>
            hl = pre @ i # post \<and> (\<forall>j\<in>set pre. coord_load c i < coord_load c j))"
proof -
  have l: "lb_load lb = active_count (map (\<lambda>(r, info). ar_instance_id info) (lb_active_requests lb))"
    by (rule ext) (simp add: lb_load_def)
  have k: "coord_load c = active_count (map (\<lambda>(r, info). cr_instance_id info) (active_requests c))"
    by (rule ext) (simp add: coord_load_def)
  show ?thesis
    unfolding l k least_busy_strategy_def least_busy_selection_def
    using least_busy_of_minimum [OF assms] by blast
qed

theorem least_busy_first_in_iteration_order_witness:
  "enumerates [''b'', ''a''] (healthy_instances tie_pool) \<and>
   healthy_instances tie_pool \<noteq> {||} \<and>
   (\<exists>i pre post. least_busy_strategy [''b'', ''a''] (new_load_balancer ''least_busy'' 3) = Some i \<and>
      i |\<in>| healthy_instances tie_pool \<and> [''b'', ''a''] = pre @ i # post) \<and>
   least_busy_strategy [''b'', ''a''] (new_load_balancer ''least_busy'' 3) = Some ''b''"
proof -
  have e: "enumerates [''b'', ''a''] (healthy_instances tie_pool)"
    by (auto simp: enumerates_def tie_pool_def new_coordinator_def)
  have n: "healthy_instances tie_pool \<noteq> {||}"
    by (simp add: tie_pool_def new_coordinator_def)
  have v: "least_busy_strategy [''b'', ''a''] (new_load_balancer ''least_busy'' 3) = Some ''b''"
    by (simp add: least_busy_strategy_def least_busy_of_def build_dict_def
        new_load_balancer_def active_count_def)
  show ?thesis
    using e n v least_busy_first_in_iteration_order [OF e n,
        of "new_load_balancer ''least_busy'' 3"]
    by blast
qed

section \<open>Validation\<close>




section \<open>Routing with retries\<close>






section \<open>Running mean of the response time\<close>

lemma append_history_fields [simp]:
  "instance_performance (append_history e lb) = instance_performance lb"
  "lb_active_requests (append_history e lb) = lb_active_requests lb"
  by (simp_all add: append_history_def Let_def)






section \<open>Failover of orphaned requests\<close>

lemma track_request_record:
  "\<exists>p. map_of (instance_performance (track_request rid i ps now lb)) i = Some p \<and>
       total_requests p =
         (case map_of (instance_performance lb) i of
            None \<Rightarrow> 1
          | Some q \<Rightarrow> total_requests q + 1)"
  by (simp add: track_request_def Let_def update_conv' new_performance_def
      split: option.splits)





end
